theory Spec2Isabelle
  imports Complex_Main "HOL-Library.Sublist"
begin

section \<open>Python values and errors\<close>

text \<open>
  The model follows \<^verbatim>\<open>gpkit/varkey.py\<close> and \<^verbatim>\<open>gpkit/nomials/data.py\<close>.
  A raise of the source is a value of \<open>py_error\<close>; a function that may raise
  returns a sum with the error on the left.
\<close>

datatype py_error = TypeError | UnitError | ValueError string

text \<open>
  The values an attribute bag holds: \<open>None\<close>, a string, an integer, an index tuple, a
  lineage (a list of pairs of a model name and a model number), a unit object of the
  unit service (type \<open>'u\<close>), or a key. A \<open>VarKey\<close> carries the instance attributes
  that \<^verbatim>\<open>__init__\<close> sets: \<open>descr\<close>, \<open>cleanstr\<close>, \<open>eqstr\<close>,
  \<open>_hashvalue\<close>, \<open>keys\<close>, and \<open>veckey\<close> when it was synthesized
  (\<open>veckey_attr\<close>). The attribute \<open>key\<close> is the object itself and \<open>hmap\<close> is
  the monomial map of the key alone; neither is read by the functions below.
  The bag \<open>descr\<close> is a Python dict with string keys: a map from attribute names.
\<close>

datatype 'u pyval =
    PNone
  | PStr string
  | PInt int
  | PTuple "int list"
  | PLineage "(string \<times> int) list"
  | PUnits 'u
  | PKey "'u varkey"
and 'u varkey =
  VarKey (descr: "string \<Rightarrow> 'u pyval option") (cleanstr: string) (eqstr: string)
    (hashvalue: int) (keys: "'u pyval list") (veckey_attr: "'u varkey option")

text \<open>Python truth value: \<open>None\<close>, the empty string, zero and empty sequences are false.\<close>

fun py_truthy :: "'u pyval \<Rightarrow> bool" where
  "py_truthy PNone = False"
| "py_truthy (PStr s) = (s \<noteq> [])"
| "py_truthy (PInt i) = (i \<noteq> 0)"
| "py_truthy (PTuple t) = (t \<noteq> [])"
| "py_truthy (PLineage l) = (l \<noteq> [])"
| "py_truthy (PUnits u) = True"
| "py_truthy (PKey k) = True"

text \<open>\<^verbatim>\<open>a or b\<close>: the first operand when it is true, else the second.\<close>

definition py_or :: "'u pyval \<Rightarrow> 'u pyval \<Rightarrow> 'u pyval" where
  "py_or a b = (if py_truthy a then a else b)"

subsection \<open>Rendering of values as strings\<close>

definition digit_char :: "nat \<Rightarrow> char" where
  "digit_char d = ''0123456789'' ! d"

function str_nat :: "nat \<Rightarrow> string" where
  "str_nat n = (if n < 10 then [digit_char n] else str_nat (n div 10) @ [digit_char (n mod 10)])"
  by pat_completeness auto
termination
  by (relation "measure id") auto

declare str_nat.simps [simp del]

definition str_int :: "int \<Rightarrow> string" where
  "str_int i = (if i < 0 then CHR ''-'' # str_nat (nat (- i)) else str_nat (nat i))"

definition hex_char :: "nat \<Rightarrow> char" where
  "hex_char d = ''0123456789abcdef'' ! d"

text \<open>\<^verbatim>\<open>repr\<close> of a byte string: single quotes unless the string has a single quote
  and no double quote; the quote and the backslash are escaped, tab, newline and return
  are written \<^verbatim>\<open>\t \n \r\<close>, other bytes outside the printable range in hexadecimal.\<close>

definition repr_quote :: "string \<Rightarrow> char" where
  "repr_quote s = (if CHR 0x27 \<in> set s \<and> CHR 0x22 \<notin> set s then CHR 0x22 else CHR 0x27)"

definition repr_char :: "char \<Rightarrow> char \<Rightarrow> string" where
  "repr_char q c =
     (if c = q \<or> c = CHR 0x5C then [CHR 0x5C, c]
      else if c = CHR 0x09 then [CHR 0x5C, CHR ''t'']
      else if c = CHR 0x0A then [CHR 0x5C, CHR ''n'']
      else if c = CHR 0x0D then [CHR 0x5C, CHR ''r'']
      else if (of_char c :: nat) < 32 \<or> 127 \<le> (of_char c :: nat)
        then [CHR 0x5C, CHR ''x'', hex_char ((of_char c :: nat) div 16),
              hex_char ((of_char c :: nat) mod 16)]
      else [c])"

definition repr_str :: "string \<Rightarrow> string" where
  "repr_str s = repr_quote s # concat (map (repr_char (repr_quote s)) s) @ [repr_quote s]"

fun join :: "string \<Rightarrow> string list \<Rightarrow> string" where
  "join sep [] = []"
| "join sep [x] = x"
| "join sep (x # y # ys) = x @ sep @ join sep (y # ys)"

definition str_tuple :: "int list \<Rightarrow> string" where
  "str_tuple t =
     (case t of
        [i] \<Rightarrow> ''('' @ str_int i @ '',)''
      | _ \<Rightarrow> ''('' @ join '', '' (map str_int t) @ '')'')"

text \<open>A lineage is a list of tuples \<^verbatim>\<open>(name, number)\<close>.\<close>

definition str_pair :: "string \<times> int \<Rightarrow> string" where
  "str_pair p = ''('' @ repr_str (fst p) @ '', '' @ str_int (snd p) @ '')''"

definition str_lineage :: "(string \<times> int) list \<Rightarrow> string" where
  "str_lineage l = ''['' @ join '', '' (map str_pair l) @ '']''"

text \<open>
  The collaborators of \<^verbatim>\<open>VarKey\<close> that are not part of \<^verbatim>\<open>varkey.py\<close>:
  \<open>qty\<close>, the unit service's constructor (\<open>None\<close> when it rejects its input);
  \<open>lineagestr\<close>, the rendering of the lineage attribute inherited from
  \<^verbatim>\<open>GPkitObject\<close>, with its flag for model numbers; \<open>str_hash\<close>, the hash of
  a string; \<open>str_obj\<close>, the string of a unit object or of a key.
\<close>

record 'u services =
  qty :: "'u pyval \<Rightarrow> 'u option"
  lineagestr :: "'u pyval \<Rightarrow> bool \<Rightarrow> string"
  str_hash :: "string \<Rightarrow> int"
  str_obj :: "'u pyval \<Rightarrow> string"

text \<open>\<^verbatim>\<open>str(v)\<close>, also what \<^verbatim>\<open>"%s" % (v,)\<close> inserts.\<close>

definition py_str :: "'u services \<Rightarrow> 'u pyval \<Rightarrow> string" where
  "py_str sv v =
     (case v of
        PNone \<Rightarrow> ''None''
      | PStr s \<Rightarrow> s
      | PInt i \<Rightarrow> str_int i
      | PTuple t \<Rightarrow> str_tuple t
      | PLineage l \<Rightarrow> str_lineage l
      | _ \<Rightarrow> str_obj sv v)"

section \<open>VarKey\<close>

text \<open>\<^verbatim>\<open>d.get(attr, None)\<close> on an attribute bag.\<close>

definition dict_get :: "(string \<Rightarrow> 'u pyval option) \<Rightarrow> string \<Rightarrow> 'u pyval" where
  "dict_get d attr = (case d attr of None \<Rightarrow> PNone | Some v \<Rightarrow> v)"

text \<open>\<^verbatim>\<open>__getattr__\<close>: Python calls it for an attribute that is neither an instance
  attribute nor a class attribute of the key.\<close>

definition VarKey_getattr :: "'u varkey \<Rightarrow> string \<Rightarrow> py_error + 'u pyval" where
  "VarKey_getattr k attr = Inr (dict_get (descr k) attr)"

definition subscripts :: "string list" where
  "subscripts = [''lineage'', ''idx'']"

text \<open>One round of the loop of \<^verbatim>\<open>str_without\<close>: what a subscript appends.\<close>

definition subscript_str ::
  "'u services \<Rightarrow> (string \<Rightarrow> 'u pyval option) \<Rightarrow> string list \<Rightarrow> string \<Rightarrow> string" where
  "subscript_str sv d excluded subscript =
     (if py_truthy (dict_get d subscript) \<and> subscript \<notin> set excluded then
        CHR ''_'' #
          (if subscript = ''lineage''
           then lineagestr sv (dict_get d ''lineage'') (''modelnums'' \<notin> set excluded)
           else py_str sv (dict_get d subscript))
      else [])"

text \<open>\<^verbatim>\<open>str_without\<close> reads \<^verbatim>\<open>self.name\<close> through \<^verbatim>\<open>__getattr__\<close>. With a name
  that is not a string the concatenations of \<^verbatim>\<open>__init__\<close> raise; the model raises
  here.\<close>

definition str_without ::
  "'u services \<Rightarrow> (string \<Rightarrow> 'u pyval option) \<Rightarrow> string list \<Rightarrow> py_error + string" where
  "str_without sv d excluded =
     (case dict_get d ''name'' of
        PStr n \<Rightarrow> Inr (n @ concat (map (subscript_str sv d excluded) subscripts))
      | _ \<Rightarrow> Inl TypeError)"

text \<open>Modelled from the spec: the global creation-order counter behind
  \<^verbatim>\<open>VarKey.unique_id\<close> (class \<^verbatim>\<open>Count\<close> of \<^verbatim>\<open>small_classes.py\<close> is not among
  the sources). The state is the number of calls so far; a call returns the counter's
  value and advances it.\<close>

definition unique_id :: "nat \<Rightarrow> nat \<times> nat" where
  "unique_id c = (c, Suc c)"

text \<open>The placeholder \<^verbatim>\<open>"\\fbox{%s}" % n\<close>.\<close>

definition fbox :: "nat \<Rightarrow> string" where
  "fbox n = CHR 0x5C # ''fbox{'' @ str_nat n @ ''}''"

text \<open>\<^verbatim>\<open>str(name or "\\fbox{%s}" % VarKey.unique_id())\<close>: the counter is called only
  when the name is false.\<close>

definition init_name :: "'u services \<Rightarrow> 'u pyval \<Rightarrow> nat \<Rightarrow> string \<times> nat" where
  "init_name sv name c =
     (if py_truthy name then (py_str sv name, c)
      else (let (n, c') = unique_id c in (fbox n, c')))"

text \<open>Lines 26 to 37 of \<^verbatim>\<open>__init__\<close>: the attribute bag.\<close>

definition init_descr ::
  "'u services \<Rightarrow> 'u pyval \<Rightarrow> (string \<Rightarrow> 'u pyval option) \<Rightarrow> nat
     \<Rightarrow> (py_error + (string \<Rightarrow> 'u pyval option)) \<times> nat" where
  "init_descr sv name kwargs c =
     (case name of
        PKey k \<Rightarrow> (Inr (descr k), c)
      | _ \<Rightarrow>
        (let (nm, c') = init_name sv name c;
             d = kwargs(''name'' \<mapsto> PStr nm);
             unitrepr = py_or (dict_get d ''unitrepr'') (dict_get d ''units'')
         in if unitrepr \<in> set [PStr [], PStr ''-'', PNone]
            then (Inr (d(''units'' \<mapsto> PNone, ''unitrepr'' \<mapsto> PStr ''-'')), c')
            else (case qty sv unitrepr of
                    None \<Rightarrow> (Inl UnitError, c')
                  | Some u \<Rightarrow> (Inr (d(''units'' \<mapsto> PUnits u, ''unitrepr'' \<mapsto> unitrepr)), c'))))"

text \<open>Lines 39 to 43: \<open>cleanstr\<close>, \<open>eqstr\<close>, the hash and the first \<open>keys\<close>. The
  concatenation that gives \<open>eqstr\<close> needs a string \<open>unitrepr\<close>.\<close>

definition init_strs :: "'u services \<Rightarrow> (string \<Rightarrow> 'u pyval option) \<Rightarrow> py_error + 'u varkey" where
  "init_strs sv d =
     (case str_without sv d [''modelnums''] of
        Inl e \<Rightarrow> Inl e
      | Inr cs \<Rightarrow>
        (case dict_get d ''unitrepr'' of
           PStr ur \<Rightarrow>
             (let es = cs @ py_str sv (dict_get d ''lineage'') @ ur
              in Inr (VarKey d cs es (str_hash sv es)
                        (List.insert (PStr cs) [dict_get d ''name'']) None))
         | _ \<Rightarrow> Inl TypeError))"

definition init_core ::
  "'u services \<Rightarrow> 'u pyval \<Rightarrow> (string \<Rightarrow> 'u pyval option) \<Rightarrow> nat
     \<Rightarrow> (py_error + 'u varkey) \<times> nat" where
  "init_core sv name kwargs c =
     (case init_descr sv name kwargs c of
        (Inl e, c') \<Rightarrow> (Inl e, c')
      | (Inr d, c') \<Rightarrow> (init_strs sv d, c'))"

text \<open>Lines 50 to 52: the vector key and the names without the index join \<open>keys\<close>.
  \<^verbatim>\<open>self.veckey\<close> is the synthesized key when there is one, else the bag's entry.\<close>

definition init_veckeys :: "'u services \<Rightarrow> 'u varkey \<Rightarrow> 'u varkey option \<Rightarrow> py_error + 'u varkey" where
  "init_veckeys sv k vk =
     (let veckey = (case vk of Some v \<Rightarrow> PKey v | None \<Rightarrow> dict_get (descr k) ''veckey'')
      in case str_without sv (descr k) [''idx''] of
           Inl e \<Rightarrow> Inl e
         | Inr s1 \<Rightarrow>
           (case str_without sv (descr k) [''idx'', ''modelnums''] of
              Inl e \<Rightarrow> Inl e
            | Inr s2 \<Rightarrow>
              Inr (VarKey (descr k) (cleanstr k) (eqstr k) (hashvalue k)
                     (List.insert (PStr s2) (List.insert (PStr s1) (List.insert veckey (keys k))))
                     vk)))"

text \<open>\<^verbatim>\<open>vecdescr = self.descr.copy(); del vecdescr["idx"]\<close>\<close>

definition vecdescr :: "'u varkey \<Rightarrow> string \<Rightarrow> 'u pyval option" where
  "vecdescr k = (descr k)(''idx'' := None)"

lemma init_strs_descr: "init_strs sv d = Inr k \<Longrightarrow> descr k = d"
  by (auto simp: init_strs_def Let_def split: sum.splits pyval.splits)

lemma init_strs_name: "init_strs sv d = Inr k \<Longrightarrow> \<exists>s. dict_get d ''name'' = PStr s"
  by (auto simp: init_strs_def str_without_def Let_def split: sum.splits pyval.splits)

lemma init_descr_idx:
  "init_descr sv name kwargs c = (Inr d, c1) \<Longrightarrow> \<forall>k'. name \<noteq> PKey k' \<Longrightarrow>
     (''idx'' \<in> dom d) = (''idx'' \<in> dom kwargs)"
  by (cases name) (auto simp: init_descr_def Let_def split: prod.splits if_splits option.splits)

lemma init_core_name:
  "init_core sv name kwargs c = (Inr k, c1) \<Longrightarrow> \<exists>s. dict_get (descr k) ''name'' = PStr s"
  by (auto simp: init_core_def split: prod.splits sum.splits dest: init_strs_name init_strs_descr)

lemma init_core_idx:
  "init_core sv name kwargs c = (Inr k, c1) \<Longrightarrow> \<forall>k'. name \<noteq> PKey k' \<Longrightarrow>
     (''idx'' \<in> dom (descr k)) = (''idx'' \<in> dom kwargs)"
  by (auto simp: init_core_def split: prod.splits sum.splits dest!: init_strs_descr init_descr_idx)

text \<open>The constructor called on \<open>vecdescr\<close> gets a string name and no index, so it
  does not synthesize a vector key of its own.\<close>

lemma vecdescr_call_smaller:
  assumes core: "(Inr k, c1) = init_core sv name kwargs c" and idx: "''idx'' \<in> dom (descr k)"
  shows "((sv, dict_get (vecdescr k) ''name'', (vecdescr k)(''name'' := None), c1), sv, name, kwargs, c)
       \<in> measure (\<lambda>(sv, name, kwargs, c).
            case name of PKey k \<Rightarrow> 2 | _ \<Rightarrow> if ''idx'' \<in> dom kwargs then 1 else (0::nat))"
proof -
  from core have core': "init_core sv name kwargs c = (Inr k, c1)" by simp
  obtain s where s: "dict_get (descr k) ''name'' = PStr s"
    using init_core_name [OF core'] by blast
  have nm: "dict_get (vecdescr k) ''name'' = PStr s"
    using s by (simp add: vecdescr_def dict_get_def)
  have noidx: "''idx'' \<notin> dom ((vecdescr k)(''name'' := None))"
    by (simp add: vecdescr_def)
  have pos: "(case name of PKey k \<Rightarrow> 2 | _ \<Rightarrow> if ''idx'' \<in> dom kwargs then 1 else (0::nat)) > 0"
    using init_core_idx [OF core'] idx by (cases name) auto
  show ?thesis
    using pos noidx by (simp add: nm)
qed

text \<open>\<^verbatim>\<open>VarKey.__init__\<close>, from the name argument, the keyword arguments and the
  state of the counter to the key (or the error) and the counter afterwards. With an
  index and no \<open>veckey\<close> entry in the bag it calls itself on \<open>vecdescr\<close>:
  \<^verbatim>\<open>VarKey(**vecdescr)\<close> passes the bag's \<open>name\<close> entry as the name and the rest as
  keyword arguments.\<close>

function VarKey_init ::
  "'u services \<Rightarrow> 'u pyval \<Rightarrow> (string \<Rightarrow> 'u pyval option) \<Rightarrow> nat
     \<Rightarrow> (py_error + 'u varkey) \<times> nat" where
  "VarKey_init sv name kwargs c =
     (case init_core sv name kwargs c of
        (Inl e, c1) \<Rightarrow> (Inl e, c1)
      | (Inr k, c1) \<Rightarrow>
        if ''idx'' \<in> dom (descr k) then
          if ''veckey'' \<notin> dom (descr k) then
            (case VarKey_init sv (dict_get (vecdescr k) ''name'')
                    ((vecdescr k)(''name'' := None)) c1 of
               (Inl e, c2) \<Rightarrow> (Inl e, c2)
             | (Inr vk, c2) \<Rightarrow> (init_veckeys sv k (Some vk), c2))
          else (init_veckeys sv k None, c1)
        else (Inr k, c1))"
  by pat_completeness auto
termination
  by (relation "measure (\<lambda>(sv, name, kwargs, c).
        case name of PKey k \<Rightarrow> 2 | _ \<Rightarrow> if ''idx'' \<in> dom kwargs then 1 else (0::nat))")
     (simp, (rule vecdescr_call_smaller; simp))

declare VarKey_init.simps [simp del]

text \<open>\<^verbatim>\<open>__eq__\<close>: an operand without a \<open>descr\<close> attribute is unequal; \<^verbatim>\<open>__ne__\<close>
  negates; \<^verbatim>\<open>__hash__\<close> returns the stored hash.\<close>

definition VarKey_eq :: "'u varkey \<Rightarrow> 'u pyval \<Rightarrow> bool" where
  "VarKey_eq k other = (case other of PKey k' \<Rightarrow> eqstr k = eqstr k' | _ \<Rightarrow> False)"

definition VarKey_ne :: "'u varkey \<Rightarrow> 'u pyval \<Rightarrow> bool" where
  "VarKey_ne k other = (\<not> VarKey_eq k other)"

definition VarKey_hash :: "'u varkey \<Rightarrow> int" where
  "VarKey_hash k = hashvalue k"

subsection \<open>Facts about the constructor\<close>

lemma init_strs_fields:
  assumes "init_strs sv d = Inr k"
  shows "descr k = d"
    and "str_without sv d [''modelnums''] = Inr (cleanstr k)"
    and "\<exists>ur. dict_get d ''unitrepr'' = PStr ur \<and>
           eqstr k = cleanstr k @ py_str sv (dict_get d ''lineage'') @ ur"
    and "hashvalue k = str_hash sv (eqstr k)"
    and "veckey_attr k = None"
  using assms by (auto simp: init_strs_def Let_def split: sum.splits pyval.splits)

lemma init_veckeys_fields:
  assumes "init_veckeys sv k0 vk = Inr k"
  shows "descr k = descr k0" "cleanstr k = cleanstr k0" "eqstr k = eqstr k0"
    "hashvalue k = hashvalue k0" "veckey_attr k = vk"
  using assms by (auto simp: init_veckeys_def Let_def split: sum.splits)

lemma VarKey_init_noidx:
  assumes "\<forall>k'. name \<noteq> PKey k'" "''idx'' \<notin> dom kwargs"
  shows "VarKey_init sv name kwargs c = init_core sv name kwargs c"
proof (cases "init_core sv name kwargs c")
  case (Pair r c1)
  show ?thesis
  proof (cases r)
    case (Inl e)
    with Pair show ?thesis by (simp add: VarKey_init.simps)
  next
    case (Inr k)
    with Pair have "init_core sv name kwargs c = (Inr k, c1)" by simp
    from init_core_idx [OF this assms(1)] assms(2) have "''idx'' \<notin> dom (descr k)" by simp
    with Pair Inr show ?thesis by (simp add: VarKey_init.simps)
  qed
qed

text \<open>The constructor with its one level of recursion written out.\<close>

lemma VarKey_init_unfold:
  "VarKey_init sv name kwargs c =
     (case init_core sv name kwargs c of
        (Inl e, c1) \<Rightarrow> (Inl e, c1)
      | (Inr k, c1) \<Rightarrow>
        if ''idx'' \<in> dom (descr k) then
          if ''veckey'' \<notin> dom (descr k) then
            (case init_core sv (dict_get (vecdescr k) ''name'')
                    ((vecdescr k)(''name'' := None)) c1 of
               (Inl e, c2) \<Rightarrow> (Inl e, c2)
             | (Inr vk, c2) \<Rightarrow> (init_veckeys sv k (Some vk), c2))
          else (init_veckeys sv k None, c1)
        else (Inr k, c1))"
proof (cases "init_core sv name kwargs c")
  case (Pair r c1)
  show ?thesis
  proof (cases r)
    case (Inl e)
    with Pair show ?thesis by (simp add: VarKey_init.simps)
  next
    case (Inr k)
    with Pair have core: "init_core sv name kwargs c = (Inr k, c1)" by simp
    obtain s where s: "dict_get (descr k) ''name'' = PStr s"
      using init_core_name [OF core] by blast
    have nm: "dict_get (vecdescr k) ''name'' = PStr s"
      using s by (simp add: vecdescr_def dict_get_def)
    have "VarKey_init sv (PStr s) ((vecdescr k)(''name'' := None)) c1
          = init_core sv (PStr s) ((vecdescr k)(''name'' := None)) c1"
      by (rule VarKey_init_noidx) (simp_all add: vecdescr_def)
    then show ?thesis
      by (subst VarKey_init.simps) (simp add: core nm)
  qed
qed

lemma init_name_mono: "init_name sv name c = (s, c') \<Longrightarrow> c \<le> c'"
  by (auto simp: init_name_def unique_id_def split: if_splits)

lemma init_descr_mono: "init_descr sv name kwargs c = (r, c') \<Longrightarrow> c \<le> c'"
  by (cases name)
     (auto simp: init_descr_def Let_def split: prod.splits if_splits option.splits
           dest: init_name_mono)

lemma init_core_mono: "init_core sv name kwargs c = (r, c') \<Longrightarrow> c \<le> c'"
  by (auto simp: init_core_def split: prod.splits sum.splits dest: init_descr_mono)

lemma VarKey_init_mono: "VarKey_init sv name kwargs c = (r, c') \<Longrightarrow> c \<le> c'"
  by (auto simp: VarKey_init_unfold split: prod.splits sum.splits if_splits
           dest: init_core_mono)
     (meson init_core_mono le_trans)+

lemma VarKey_init_fields:
  assumes "VarKey_init sv name kwargs c = (Inr k, c')"
  shows "\<exists>k0 c1. init_core sv name kwargs c = (Inr k0, c1) \<and> descr k = descr k0 \<and>
           cleanstr k = cleanstr k0 \<and> eqstr k = eqstr k0 \<and> hashvalue k = hashvalue k0"
  using assms
  by (auto simp: VarKey_init_unfold split: prod.splits sum.splits if_splits
           dest: init_veckeys_fields)

text \<open>The unit-like input of a construction: \<^verbatim>\<open>self.unitrepr or self.units\<close>.\<close>

definition resolved_unitrepr :: "(string \<Rightarrow> 'u pyval option) \<Rightarrow> 'u pyval" where
  "resolved_unitrepr kwargs = py_or (dict_get kwargs ''unitrepr'') (dict_get kwargs ''units'')"

lemma init_descr_result:
  assumes nk: "\<forall>k. name \<noteq> PKey k" and ok: "init_descr sv name kw c = (Inr d, c1)"
  shows "\<exists>nm U R. init_name sv name c = (nm, c1) \<and>
           d = kw(''name'' \<mapsto> PStr nm, ''units'' \<mapsto> U, ''unitrepr'' \<mapsto> R) \<and>
           ((U = PNone \<and> R = PStr ''-'' \<and> resolved_unitrepr kw \<in> {PStr [], PStr ''-'', PNone}) \<or>
            (\<exists>u. qty sv (resolved_unitrepr kw) = Some u \<and> U = PUnits u \<and> R = resolved_unitrepr kw \<and>
                 resolved_unitrepr kw \<notin> {PStr [], PStr ''-'', PNone}))"
  using nk ok
  by (cases name)
     (auto simp: init_descr_def Let_def resolved_unitrepr_def dict_get_def
           split: prod.splits if_splits option.splits)



lemma init_name_cases:
  "init_name sv PNone c = (fbox c, Suc c)"
  "s \<noteq> [] \<Longrightarrow> init_name sv (PStr s) c = (s, c)"
  "init_name sv (PStr []) c = (fbox c, Suc c)"
  by (simp_all add: init_name_def unique_id_def py_str_def)

lemma fbox_nonempty: "fbox n \<noteq> []"
  by (simp add: fbox_def)











text \<open>Reading a decimal numeral back, to show that \<open>str_nat\<close> is injective.\<close>

definition digit_val :: "char \<Rightarrow> nat" where
  "digit_val ch = of_char ch - 48"

definition nat_of_str :: "string \<Rightarrow> nat" where
  "nat_of_str s = foldl (\<lambda>a ch. 10 * a + digit_val ch) 0 s"

lemma digit_val_digit_char: "d < 10 \<Longrightarrow> digit_val (digit_char d) = d"
proof -
  assume "d < 10"
  then have "d \<in> {0, 1, 2, 3, 4, 5, 6, 7, 8, 9}" by auto
  then show ?thesis by (auto simp: digit_char_def digit_val_def)
qed

lemma nat_of_str_str_nat: "nat_of_str (str_nat n) = n"
proof (induction n rule: str_nat.induct)
  case (1 n)
  show ?case
  proof (cases "n < 10")
    case True
    then show ?thesis
      by (subst str_nat.simps) (simp add: nat_of_str_def digit_val_digit_char)
  next
    case False
    with 1 show ?thesis
      by (subst str_nat.simps) (simp add: nat_of_str_def digit_val_digit_char)
  qed
qed

lemma str_nat_inj: "str_nat m = str_nat n \<Longrightarrow> m = n"
  by (metis nat_of_str_str_nat)

lemma fbox_inj: "fbox m = fbox n \<Longrightarrow> m = n"
  by (simp add: fbox_def str_nat_inj)

lemma VarKey_init_anonymous:
  assumes "VarKey_init sv PNone kw c = (Inr k, c')"
  shows "dict_get (descr k) ''name'' = PStr (fbox c)" and "c' = Suc c"
proof -
  from assms obtain k0 c1 where core: "init_core sv PNone kw c = (Inr k0, c1)"
    and dk: "descr k = descr k0"
    using VarKey_init_fields by blast
  then obtain d where dd: "init_descr sv PNone kw c = (Inr d, c1)" and strs: "init_strs sv d = Inr k0"
    by (auto simp: init_core_def split: prod.splits sum.splits)
  have dk0: "descr k0 = d" using strs by (rule init_strs_fields(1))
  from init_descr_result [OF _ dd] obtain nm U R where
    nm: "init_name sv PNone c = (nm, c1)" and
    d: "d = kw(''name'' \<mapsto> PStr nm, ''units'' \<mapsto> U, ''unitrepr'' \<mapsto> R)"
    by auto
  from nm have nm': "nm = fbox c" "c1 = Suc c" by (simp_all add: init_name_cases)
  show "dict_get (descr k) ''name'' = PStr (fbox c)"
    by (simp add: dk dk0 d nm' dict_get_def)
  have vname: "dict_get (vecdescr k0) ''name'' = PStr (fbox c)"
    by (simp add: vecdescr_def dk0 d nm' dict_get_def)
  have "init_name sv (PStr (fbox c)) c1 = (fbox c, c1)"
    by (simp add: init_name_cases fbox_nonempty)
  then have "snd (init_core sv (PStr (fbox c)) kw' c1) = c1" for kw'
    by (auto simp: init_core_def init_descr_def Let_def split: prod.splits sum.splits option.splits)
  then have inner: "init_core sv (PStr (fbox c)) kw' (Suc c) = (r, c2) \<Longrightarrow> c2 = Suc c" for kw' r c2
    unfolding nm'(2) by (metis snd_conv)
  show "c' = Suc c"
    using assms core vname nm'(2)
    by (auto simp: VarKey_init_unfold split: sum.splits if_splits prod.splits dest: inner)
qed

subsection \<open>The string of a lineage determines the lineage\<close>

























subsection \<open>An instance for evaluation\<close>

text \<open>A concrete set of collaborators for evaluating the constructor: every unit
  string is accepted, the lineage is rendered as its model names joined by a slash (with
  the model number when it is asked for and not zero), and the hash of a string is its length.\<close>

definition example_services :: "unit services" where
  "example_services =
     \<lparr>qty = (\<lambda>v. Some ()),
      lineagestr = (\<lambda>v modelnums. case v of
          PLineage l \<Rightarrow> join ''/'' (map (\<lambda>(n, i). if modelnums \<and> i \<noteq> 0 then n @ str_int i else n) l)
        | _ \<Rightarrow> []),
      str_hash = (\<lambda>s. int (length s)),
      str_obj = (\<lambda>v. ''obj'')\<rparr>"

lemmas VarKey_eval =
  VarKey_init_unfold init_core_def init_descr_def init_name_def unique_id_def fbox_def py_or_def
  dict_get_def init_strs_def str_without_def subscripts_def subscript_str_def
  example_services_def py_str_def str_tuple_def str_lineage_def str_pair_def str_int_def
  str_nat.simps
  digit_char_def repr_str_def repr_quote_def repr_char_def vecdescr_def init_veckeys_def Let_def
  VarKey_eq_def VarKey_hash_def resolved_unitrepr_def

text \<open>The key of a construction that succeeded.\<close>

definition key_of :: "(py_error + 'u varkey) \<times> nat \<Rightarrow> 'u varkey" where
  "key_of r = projr (fst r)"

section \<open>Properties of VarKey\<close>







text \<open>
  C8. A construction without a name takes the value of the counter into the name
  \<^verbatim>\<open>\fbox{n}\<close> and advances the counter. The counter never decreases, so a later
  construction without a name starts from a larger value and gets a different name.
\<close>

theorem anonymous_names_distinct:
  assumes first: "VarKey_init sv PNone kw1 c = (Inr k1, c1)"
    and later: "c1 \<le> c2"
    and second: "VarKey_init sv PNone kw2 c2 = (Inr k2, c3)"
  shows "dict_get (descr k1) ''name'' = PStr (fbox c)
       \<and> dict_get (descr k2) ''name'' = PStr (fbox c2)
       \<and> fst (unique_id c) = c \<and> c1 = snd (unique_id c) \<and> c < c1 \<and> c2 < c3
       \<and> dict_get (descr k1) ''name'' \<noteq> dict_get (descr k2) ''name''"
proof -
  note a = VarKey_init_anonymous [OF first] and b = VarKey_init_anonymous [OF second]
  have "c \<noteq> c2" using a(2) later by simp
  then have "fbox c \<noteq> fbox c2" using fbox_inj by blast
  then show ?thesis using a b by (simp add: unique_id_def)
qed

theorem anonymous_names_distinct_witness:
  "dict_get (descr (key_of (VarKey_init example_services PNone Map.empty 0))) ''name''
     \<noteq> dict_get (descr (key_of (VarKey_init example_services PNone Map.empty 1))) ''name''
   \<and> snd (VarKey_init example_services PNone Map.empty 0) = 1"
proof -
  define k1 where "k1 = key_of (VarKey_init example_services PNone Map.empty 0)"
  define k2 where "k2 = key_of (VarKey_init example_services PNone Map.empty 1)"
  have first: "VarKey_init example_services PNone Map.empty 0 = (Inr k1, 1)"
    by (simp add: k1_def VarKey_eval key_of_def)
  have second: "VarKey_init example_services PNone Map.empty 1 = (Inr k2, 2)"
    by (simp add: k2_def VarKey_eval key_of_def)
  from anonymous_names_distinct [OF first _ second]
  have "dict_get (descr k1) ''name'' \<noteq> dict_get (descr k2) ''name''" by blast
  moreover have "snd (VarKey_init example_services PNone Map.empty 0) = 1"
    by (simp add: VarKey_eval)
  ultimately show ?thesis unfolding k1_def k2_def by blast
qed

text \<open>In a construction from a name the bag holds the keyword arguments, but for the
  three entries that \<^verbatim>\<open>__init__\<close> writes.\<close>

lemma VarKey_init_descr:
  assumes nk: "\<forall>k. name \<noteq> PKey k" and ok: "VarKey_init sv name kw c = (Inr k, c')"
    and attr: "attr \<notin> {''name'', ''units'', ''unitrepr''}"
  shows "descr k attr = kw attr"
proof -
  from VarKey_init_fields [OF ok] obtain k0 c1 where
    core: "init_core sv name kw c = (Inr k0, c1)" and dk: "descr k = descr k0" by blast
  then obtain d where dd: "init_descr sv name kw c = (Inr d, c1)" and strs: "init_strs sv d = Inr k0"
    by (auto simp: init_core_def split: prod.splits sum.splits)
  have dk0: "descr k0 = d" using strs by (rule init_strs_fields(1))
  from init_descr_result [OF nk dd] obtain nm U R where
    d: "d = kw(''name'' \<mapsto> PStr nm, ''units'' \<mapsto> U, ''unitrepr'' \<mapsto> R)"
    by blast
  show ?thesis using attr by (simp add: dk dk0 d)
qed

text \<open>
  C10. \<^verbatim>\<open>__getattr__\<close> never raises: it returns the bag's entry for the attribute
  when there is one and \<open>None\<close> otherwise. On a key constructed from a name, reading an
  attribute other than \<open>name\<close>, \<open>units\<close> and \<open>unitrepr\<close> returns the keyword
  argument of that name, and \<open>None\<close> when none was given.
\<close>

theorem VarKey_getattr_total:
  "\<not> isl (VarKey_getattr k attr)
   \<and> VarKey_getattr k attr = Inr (case descr k attr of None \<Rightarrow> PNone | Some v \<Rightarrow> v)
   \<and> (descr k attr = None \<longrightarrow> VarKey_getattr k attr = Inr PNone)
   \<and> (\<forall>v. descr k attr = Some v \<longrightarrow> VarKey_getattr k attr = Inr v)
   \<and> (\<forall>sv name kw c c'.
        (\<forall>k'. name \<noteq> PKey k') \<and> VarKey_init sv name kw c = (Inr k, c')
        \<and> attr \<notin> {''name'', ''units'', ''unitrepr''}
        \<longrightarrow> VarKey_getattr k attr = Inr (dict_get kw attr))"
proof -
  have 1: "VarKey_getattr k attr = Inr (case descr k attr of None \<Rightarrow> PNone | Some v \<Rightarrow> v)"
    by (simp add: VarKey_getattr_def dict_get_def)
  have 2: "VarKey_getattr k attr = Inr (dict_get kw attr)"
    if "\<forall>k'. name \<noteq> PKey k'" "VarKey_init sv name kw c = (Inr k, c')"
      "attr \<notin> {''name'', ''units'', ''unitrepr''}"
    for sv :: "'a services" and name kw c c'
    using VarKey_init_descr [OF that] by (simp add: VarKey_getattr_def dict_get_def)
  show ?thesis
    using 1 2 by auto
qed

theorem VarKey_getattr_total_witness:
  "VarKey_getattr (key_of (VarKey_init example_services (PStr ''x'')
       [''lineage'' \<mapsto> PLineage [(''A'', 0)]] 0)) ''idx'' = Inr PNone
   \<and> VarKey_getattr (key_of (VarKey_init example_services (PStr ''x'')
       [''lineage'' \<mapsto> PLineage [(''A'', 0)]] 0)) ''lineage'' = Inr (PLineage [(''A'', 0)])"
proof -
  define k where "k = key_of (VarKey_init example_services (PStr ''x'')
       [''lineage'' \<mapsto> PLineage [(''A'', 0)]] 0)"
  have ok: "VarKey_init example_services (PStr ''x'') [''lineage'' \<mapsto> PLineage [(''A'', 0)]] 0 = (Inr k, 0)"
    by (simp add: k_def VarKey_eval key_of_def)
  have nk: "\<forall>k'. PStr ''x'' \<noteq> (PKey k' :: unit pyval)" by simp
  have ni: "''idx'' \<notin> {''name'', ''units'', ''unitrepr''}"
    and nl: "''lineage'' \<notin> {''name'', ''units'', ''unitrepr''}" by simp_all
  have "\<forall>sv name kw c c'.
        (\<forall>k'. name \<noteq> PKey k') \<and> VarKey_init sv name kw c = (Inr k, c')
        \<and> ''idx'' \<notin> {''name'', ''units'', ''unitrepr''}
        \<longrightarrow> VarKey_getattr k ''idx'' = Inr (dict_get kw ''idx'')"
    using VarKey_getattr_total [of k "''idx''"] by blast
  with nk ok ni
  have 1: "VarKey_getattr k ''idx'' = Inr (dict_get [''lineage'' \<mapsto> PLineage [(''A'', 0)]] ''idx'')"
    by blast
  have "\<forall>sv name kw c c'.
        (\<forall>k'. name \<noteq> PKey k') \<and> VarKey_init sv name kw c = (Inr k, c')
        \<and> ''lineage'' \<notin> {''name'', ''units'', ''unitrepr''}
        \<longrightarrow> VarKey_getattr k ''lineage'' = Inr (dict_get kw ''lineage'')"
    using VarKey_getattr_total [of k "''lineage''"] by blast
  with nk ok nl
  have 2: "VarKey_getattr k ''lineage'' = Inr (dict_get [''lineage'' \<mapsto> PLineage [(''A'', 0)]] ''lineage'')"
    by blast
  from 1 2 show ?thesis unfolding k_def by (simp add: dict_get_def)
qed

section \<open>NomialData\<close>

text \<open>
  A \<open>HashVector\<close> is a Python dict from keys to exponents, a \<open>NomialMap\<close> a dict
  from exponent vectors to coefficients with an attached unit. Both are association lists
  in the order of enumeration, without repeated keys. Keys are taken up to Python equality:
  the type \<open>'vk\<close> stands for the identity of a key (for a \<open>VarKey\<close>, its \<open>eqstr\<close>).
  A unit is a value of the unit service or \<open>None\<close>, the dimensionless sentinel.
\<close>

type_synonym 'vk hashvector = "('vk \<times> real) list"

record ('vk, 'u) nomialmap =
  terms :: "('vk hashvector \<times> real) list"
  hmap_units :: "'u option"

text \<open>Equality of two dicts as Python decides it: the same number of entries, and every
  key of the first is a key of the second with an equal value. Exponent vectors are
  themselves compared this way when they are looked up as keys of a map.\<close>

definition hv_eq :: "'vk hashvector \<Rightarrow> 'vk hashvector \<Rightarrow> bool" where
  "hv_eq a b = (length a = length b \<and> list_all (\<lambda>(k, x). map_of b k = Some x) a)"

fun hmap_get :: "('vk hashvector \<times> real) list \<Rightarrow> 'vk hashvector \<Rightarrow> real option" where
  "hmap_get [] e = None"
| "hmap_get ((e', c) # h) e = (if hv_eq e' e then Some c else hmap_get h e)"

definition hmap_eq :: "('vk hashvector \<times> real) list \<Rightarrow> ('vk hashvector \<times> real) list \<Rightarrow> bool" where
  "hmap_eq a b = (length a = length b \<and> list_all (\<lambda>(e, c). hmap_get b e = Some c) a)"

text \<open>The object with its six cache slots, \<open>None\<close> while a view is unrealized.
  The key-set view is the \<open>KeySet\<close> built from \<open>vks\<close>, modelled by its list of keys.\<close>

record ('vk, 'u) nomialdata =
  hmap :: "('vk, 'u) nomialmap"
  vks :: "'vk list"
  units :: "'u option"
  any_nonpositive_cs :: bool
  cached_hashvalue :: "int option"
  cached_varlocs :: "('vk \<times> nat list) list option"
  cached_exps :: "'vk hashvector list option"
  cached_cs :: "(real list \<times> 'u option) option"
  cached_varkeys :: "'vk list option"
  cached_values :: "('vk \<times> real) list option"

text \<open>\<^verbatim>\<open>_reset\<close> clears the six slots.\<close>

definition reset :: "('vk, 'u) nomialdata \<Rightarrow> ('vk, 'u) nomialdata" where
  "reset self = self\<lparr>cached_hashvalue := None, cached_varlocs := None, cached_exps := None,
                     cached_cs := None, cached_varkeys := None, cached_values := None\<rparr>"

text \<open>The loop of \<^verbatim>\<open>__init__\<close> that collects \<open>vks\<close>: a key joins when it is not yet there.\<close>

definition add_vk :: "'vk list \<Rightarrow> 'vk \<Rightarrow> 'vk list" where
  "add_vk acc vk = (if vk \<in> set acc then acc else acc @ [vk])"

definition collect_vks :: "('vk hashvector \<times> real) list \<Rightarrow> 'vk list" where
  "collect_vks ts = foldl add_vk [] (concat (map (\<lambda>(e, c). map fst e) ts))"

definition NomialData_init :: "('vk, 'u) nomialmap \<Rightarrow> ('vk, 'u) nomialdata" where
  "NomialData_init h =
     reset \<lparr>hmap = h, vks = collect_vks (terms h), units = hmap_units h,
            any_nonpositive_cs = list_ex (\<lambda>c. c \<le> 0) (map snd (terms h)),
            cached_hashvalue = None, cached_varlocs = None, cached_exps = None,
            cached_cs = None, cached_varkeys = None, cached_values = None\<rparr>"

text \<open>A lazy property returns the view and the object with the slot filled. The two
  below are the ones that \<^verbatim>\<open>diff\<close>, \<^verbatim>\<open>__hash__\<close> and \<^verbatim>\<open>__eq__\<close> can reach;
  \<open>varlocs\<close>, \<open>cs\<close> and \<open>values\<close> fill their slots in the same way.\<close>

definition exps :: "('vk, 'u) nomialdata \<Rightarrow> 'vk hashvector list \<times> ('vk, 'u) nomialdata" where
  "exps self =
     (case cached_exps self of
        None \<Rightarrow> (let v = map fst (terms (hmap self)) in (v, self\<lparr>cached_exps := Some v\<rparr>))
      | Some v \<Rightarrow> (v, self))"

definition varkeys :: "('vk, 'u) nomialdata \<Rightarrow> 'vk list \<times> ('vk, 'u) nomialdata" where
  "varkeys self =
     (case cached_varkeys self of
        None \<Rightarrow> (let v = vks self in (v, self\<lparr>cached_varkeys := Some v\<rparr>))
      | Some v \<Rightarrow> (v, self))"

text \<open>
  The collaborators of \<^verbatim>\<open>NomialData\<close> that are not part of \<^verbatim>\<open>data.py\<close>:
  \<open>matches\<close>, whether a variable reference resolves to a key under the lineage rules of
  \<^verbatim>\<open>KeySet\<close>; \<open>repr_key\<close> and \<open>str_ref\<close>, the strings of a key and of a reference
  in a message; \<open>set_order\<close>, the order in which Python enumerates a set of keys,
  which follows the hashes of the keys and not the order of insertion (the set is given by
  the list of its elements); \<open>key_units\<close>, the unit of a key; \<open>unit_div\<close>, the unit
  service's quotient of two units; \<open>unit_str\<close>, the string of a unit;
  \<open>hash_content\<close>, \<open>hash_str\<close> and \<open>hash_int\<close>, the hashes of a map's
  content, a string and an integer.
\<close>

record ('vk, 'r, 'u) collaborators =
  matches :: "'r \<Rightarrow> 'vk \<Rightarrow> bool"
  repr_key :: "'vk \<Rightarrow> string"
  str_ref :: "'r \<Rightarrow> string"
  set_order :: "'vk list \<Rightarrow> 'vk list"
  key_units :: "'vk \<Rightarrow> 'u option"
  unit_div :: "'u option \<Rightarrow> 'u option \<Rightarrow> 'u option"
  unit_str :: "'u option \<Rightarrow> string"
  hash_content :: "(('vk \<Rightarrow> real option) \<Rightarrow> real option) \<Rightarrow> int"
  hash_str :: "string \<Rightarrow> int"
  hash_int :: "int \<Rightarrow> int"

text \<open>Modelled from the spec: the lookup \<^verbatim>\<open>KeySet.__getitem__\<close> (\<^verbatim>\<open>keydict.py\<close> is
  not among the sources). It resolves a variable reference against the key set: the
  result is the set of keys of the set that match the reference, here the list of its
  elements without repetition. The length of the list is the \<^verbatim>\<open>len\<close> of the set;
  the order of the list is not the order in which Python enumerates the set, which is
  \<open>set_order\<close>.\<close>

definition KeySet_getitem :: "('r \<Rightarrow> 'vk \<Rightarrow> bool) \<Rightarrow> 'vk list \<Rightarrow> 'r \<Rightarrow> 'vk list" where
  "KeySet_getitem m ks var = remdups (filter (m var) ks)"

text \<open>The content of a map: the coefficient of each exponent vector, an exponent vector
  being the exponent of each key. It does not depend on the order of enumeration.\<close>

definition hmap_content :: "('vk hashvector \<times> real) list \<Rightarrow> ('vk \<Rightarrow> real option) \<Rightarrow> real option" where
  "hmap_content ts = map_of (map (\<lambda>(e, c). (map_of e, c)) ts)"

text \<open>Modelled from the spec: \<^verbatim>\<open>HashVector.__hash__\<close> (\<^verbatim>\<open>small_classes.py\<close> is not
  among the sources), a pure function of the map's content.\<close>

definition hmap_hash :: "('vk, 'r, 'u) collaborators \<Rightarrow> ('vk, 'u) nomialmap \<Rightarrow> int" where
  "hmap_hash env h = hash_content env (hmap_content (terms h))"

text \<open>\<^verbatim>\<open>__hash__\<close>: \<^verbatim>\<open>hash(hash(self.hmap) + hash(str(self.hmap.units)))\<close>, computed
  when the slot is empty and stored.\<close>

definition NomialData_hash ::
  "('vk, 'r, 'u) collaborators \<Rightarrow> ('vk, 'u) nomialdata \<Rightarrow> int \<times> ('vk, 'u) nomialdata" where
  "NomialData_hash env self =
     (case cached_hashvalue self of
        None \<Rightarrow>
          (let v = hash_int env (hmap_hash env (hmap self)
                     + hash_str env (unit_str env (hmap_units (hmap self))))
           in (v, self\<lparr>cached_hashvalue := Some v\<rparr>))
      | Some v \<Rightarrow> (v, self))"

text \<open>\<^verbatim>\<open>__eq__\<close>: \<open>NotImplemented\<close> for an operand without an \<open>hmap\<close> attribute
  (\<open>None\<close> here); else the maps are compared as dicts, then the units.\<close>

datatype eq_result = NotImplemented | Result bool

definition NomialData_eq :: "('vk, 'u) nomialdata \<Rightarrow> ('vk, 'u) nomialdata option \<Rightarrow> eq_result" where
  "NomialData_eq self other =
     (case other of
        None \<Rightarrow> NotImplemented
      | Some other \<Rightarrow>
          if \<not> hmap_eq (terms (hmap self)) (terms (hmap other)) then Result False
          else if units self \<noteq> units other then Result False
          else Result True)"

text \<open>Modelled from the spec: \<^verbatim>\<open>NomialMap.diff\<close> (\<^verbatim>\<open>nomials/map.py\<close> is not among
  the sources). A term whose exponent \<open>e\<close> of the variable is not zero gives a term with
  exponent \<open>e - 1\<close> (the variable removed when that is zero) and the coefficient times
  \<open>e\<close>; a term with exponent zero gives a zero term; terms with the same exponent vector
  are summed; the unit is the map's unit divided by the variable's unit.\<close>

definition hv_exponent :: "'vk hashvector \<Rightarrow> 'vk \<Rightarrow> real" where
  "hv_exponent e v = (case map_of e v of None \<Rightarrow> 0 | Some x \<Rightarrow> x)"

definition diff_term :: "'vk \<Rightarrow> 'vk hashvector \<times> real \<Rightarrow> 'vk hashvector \<times> real" where
  "diff_term v t =
     (let e = fst t; c = snd t; x = hv_exponent e v
      in if x = 0 then (e, 0)
         else if x - 1 = 0 then (filter (\<lambda>(k, y). k \<noteq> v) e, c * x)
         else (map (\<lambda>(k, y). if k = v then (k, x - 1) else (k, y)) e, c * x))"

fun add_term :: "('vk hashvector \<times> real) list \<Rightarrow> 'vk hashvector \<times> real \<Rightarrow> ('vk hashvector \<times> real) list" where
  "add_term [] t = [t]"
| "add_term ((e', c') # h) t =
     (if hv_eq e' (fst t) then (e', c' + snd t) # h else (e', c') # add_term h t)"

definition hmap_diff :: "('vk, 'r, 'u) collaborators \<Rightarrow> ('vk, 'u) nomialmap \<Rightarrow> 'vk \<Rightarrow> ('vk, 'u) nomialmap" where
  "hmap_diff env h v =
     \<lparr>terms = foldl add_term [] (map (diff_term v) (terms h)),
      hmap_units = unit_div env (hmap_units h) (key_units env v)\<rparr>"

text \<open>Lines 101 and 102 of \<^verbatim>\<open>diff\<close>: the map \<^verbatim>\<open>NomialMap({HashVector(): 0})\<close> after
  \<^verbatim>\<open>set_units(None)\<close>. The dict has the one entry written there, the empty exponent
  vector with coefficient zero; \<^verbatim>\<open>set_units(None)\<close> leaves it without a unit (the zero
  constant of the spec).\<close>

definition zero_constant :: "('vk, 'u) nomialmap" where
  "zero_constant = \<lparr>terms = [([], 0)], hmap_units = None\<rparr>"

text \<open>\<^verbatim>\<open>"%s" % ks\<close> for a list \<open>ks\<close> of keys: the \<^verbatim>\<open>repr\<close> of each key, in
  the order of the list.\<close>

definition str_keys :: "('vk \<Rightarrow> string) \<Rightarrow> 'vk list \<Rightarrow> string" where
  "str_keys r ks = ''['' @ join '', '' (map r ks) @ '']''"

text \<open>\<^verbatim>\<open>diff\<close>, with the receiver after the call as second component: reading
  \<^verbatim>\<open>self.varkeys\<close> fills the slot of the key-set view. The message lists
  \<^verbatim>\<open>list(varset)\<close>, the matching keys in the order in which the set enumerates them;
  \<^verbatim>\<open>var, = varset\<close> takes the one element of a set with one element.\<close>

definition diff ::
  "('vk, 'r, 'u) collaborators \<Rightarrow> ('vk, 'u) nomialdata \<Rightarrow> 'r
     \<Rightarrow> (py_error + ('vk, 'u) nomialdata) \<times> ('vk, 'u) nomialdata" where
  "diff env self var =
     (let (ks, self') = varkeys self;
          varset = KeySet_getitem (matches env) ks var
      in if length varset > 1 then
           (Inl (ValueError (''multiple variables ''
                             @ str_keys (repr_key env) (set_order env varset)
                             @ '' found for key '' @ str_ref env var)), self')
         else if length varset = 0 then (Inr (NomialData_init zero_constant), self')
         else (Inr (NomialData_init (hmap_diff env (hmap self) (hd varset))), self'))"

subsection \<open>Dict equality and the content of a map\<close>

lemma dict_eq_iff_map_of:
  assumes dx: "distinct (map fst xs)" and dy: "distinct (map fst ys)"
  shows "(length xs = length ys \<and> list_all (\<lambda>(k, v). map_of ys k = Some v) xs)
       = (map_of xs = map_of ys)"
proof
  assume eq: "map_of xs = map_of ys"
  then have "dom (map_of xs) = dom (map_of ys)" by simp
  then have "set (map fst xs) = set (map fst ys)" by (simp add: dom_map_of_conv_image_fst)
  then have "card (set (map fst xs)) = card (set (map fst ys))" by simp
  then have len: "length xs = length ys"
    using distinct_card [OF dx] distinct_card [OF dy] by simp
  have "map_of ys k = Some v" if "(k, v) \<in> set xs" for k v
    using that dx eq by (metis map_of_is_SomeI)
  then have "list_all (\<lambda>(k, v). map_of ys k = Some v) xs"
    by (auto simp: list_all_iff)
  with len show "length xs = length ys \<and> list_all (\<lambda>(k, v). map_of ys k = Some v) xs" ..
next
  assume a: "length xs = length ys \<and> list_all (\<lambda>(k, v). map_of ys k = Some v) xs"
  then have len: "length xs = length ys"
    and all: "\<And>k v. (k, v) \<in> set xs \<Longrightarrow> map_of ys k = Some v"
    by (auto simp: list_all_iff)
  have sub: "set (map fst xs) \<subseteq> set (map fst ys)"
  proof
    fix k assume "k \<in> set (map fst xs)"
    then obtain v where "(k, v) \<in> set xs" by auto
    then have "map_of ys k = Some v" by (rule all)
    then show "k \<in> set (map fst ys)" by (metis map_of_SomeD fst_conv image_eqI set_map)
  qed
  have "card (set (map fst xs)) = card (set (map fst ys))"
    using distinct_card [OF dx] distinct_card [OF dy] len by simp
  with sub have keys: "set (map fst xs) = set (map fst ys)"
    by (simp add: card_subset_eq)
  show "map_of xs = map_of ys"
  proof
    fix k
    show "map_of xs k = map_of ys k"
    proof (cases "map_of xs k")
      case None
      then have "k \<notin> set (map fst xs)" by (simp add: map_of_eq_None_iff)
      then have "k \<notin> set (map fst ys)" using keys by simp
      then have "map_of ys k = None" by (simp add: map_of_eq_None_iff)
      with None show ?thesis by simp
    next
      case (Some v)
      then have "(k, v) \<in> set xs" by (rule map_of_SomeD)
      then have "map_of ys k = Some v" by (rule all)
      with Some show ?thesis by simp
    qed
  qed
qed

text \<open>The invariant of a Python dict, no repeated key: in an exponent vector no key
  twice, in a map no two exponent vectors with the same content.\<close>

definition wf_hv :: "'vk hashvector \<Rightarrow> bool" where
  "wf_hv e = distinct (map fst e)"

definition wf_terms :: "('vk hashvector \<times> real) list \<Rightarrow> bool" where
  "wf_terms ts = (list_all (\<lambda>(e, c). wf_hv e) ts \<and> distinct (map (\<lambda>(e, c). map_of e) ts))"

lemma hv_eq_iff: "wf_hv a \<Longrightarrow> wf_hv b \<Longrightarrow> hv_eq a b = (map_of a = map_of b)"
  unfolding hv_eq_def wf_hv_def by (rule dict_eq_iff_map_of)

lemma hmap_get_content:
  assumes "list_all (\<lambda>(e, c). wf_hv e) ts" "wf_hv e"
  shows "hmap_get ts e = hmap_content ts (map_of e)"
  using assms
proof (induction ts)
  case Nil
  then show ?case by (simp add: hmap_content_def)
next
  case (Cons t ts)
  obtain e' c' where t: "t = (e', c')" by (cases t)
  from Cons.prems have w: "wf_hv e'" and rest: "list_all (\<lambda>(e, c). wf_hv e) ts"
    by (simp_all add: t)
  have ih: "hmap_get ts e = hmap_content ts (map_of e)"
    using Cons.IH rest Cons.prems(2) by simp
  show ?case
    using ih hv_eq_iff [OF w Cons.prems(2)]
    by (auto simp: t hmap_content_def)
qed

lemma hmap_eq_iff:
  assumes a: "wf_terms a" and b: "wf_terms b"
  shows "hmap_eq a b = (hmap_content a = hmap_content b)"
proof -
  let ?f = "\<lambda>(e, c). (map_of e, c)"
  have da: "distinct (map fst (map ?f a))" and db: "distinct (map fst (map ?f b))"
    using a b by (simp_all add: wf_terms_def comp_def case_prod_unfold)
  have wa: "list_all (\<lambda>(e, c). wf_hv e) a" and wb: "list_all (\<lambda>(e, c). wf_hv e) b"
    using a b by (simp_all add: wf_terms_def)
  have pt: "(case t of (e, c) \<Rightarrow> hmap_get b e = Some c)
          = (case ?f t of (k, v) \<Rightarrow> map_of (map ?f b) k = Some v)" if "t \<in> set a" for t
  proof -
    obtain e c where t: "t = (e, c)" by (cases t)
    with that wa have "wf_hv e" by (auto simp: list_all_iff)
    from hmap_get_content [OF wb this] show ?thesis
      by (simp add: t hmap_content_def)
  qed
  have "list_all (\<lambda>(e, c). hmap_get b e = Some c) a
      = list_all (\<lambda>(k, v). map_of (map ?f b) k = Some v) (map ?f a)"
    unfolding list_all_iff set_map ball_simps by (rule ball_cong) (simp_all add: pt)
  then have "hmap_eq a b
      = (length (map ?f a) = length (map ?f b)
         \<and> list_all (\<lambda>(k, v). map_of (map ?f b) k = Some v) (map ?f a))"
    by (simp add: hmap_eq_def)
  also have "\<dots> = (map_of (map ?f a) = map_of (map ?f b))"
    by (rule dict_eq_iff_map_of [OF da db])
  finally show ?thesis by (simp add: hmap_content_def)
qed

lemma hmap_content_set:
  assumes a: "wf_terms a" and b: "wf_terms b" and s: "set a = set b"
  shows "hmap_content a = hmap_content b"
proof -
  let ?f = "\<lambda>(e, c). (map_of e, c)"
  have da: "distinct (map fst (map ?f a))" and db: "distinct (map fst (map ?f b))"
    using a b by (simp_all add: wf_terms_def comp_def case_prod_unfold)
  have "set (map ?f a) = set (map ?f b)" using s by simp
  then show ?thesis
    unfolding hmap_content_def using map_of_inject_set [OF da db] by simp
qed

text \<open>What holds of an object as \<^verbatim>\<open>__init__\<close> and \<^verbatim>\<open>__hash__\<close> leave it: its
  map is a well-formed dict, \<open>units\<close> is the unit of the map, and the hash slot is
  empty or holds the hash of the map and the unit.\<close>

definition NomialData_ok :: "('vk, 'r, 'u) collaborators \<Rightarrow> ('vk, 'u) nomialdata \<Rightarrow> bool" where
  "NomialData_ok env d =
     (wf_terms (terms (hmap d)) \<and> units d = hmap_units (hmap d) \<and>
      (cached_hashvalue d = None \<or>
       cached_hashvalue d = Some (hash_int env (hmap_hash env (hmap d)
                                   + hash_str env (unit_str env (hmap_units (hmap d)))))))"

lemma NomialData_init_ok: "wf_terms (terms h) \<Longrightarrow> NomialData_ok env (NomialData_init h)"
  by (simp add: NomialData_ok_def NomialData_init_def reset_def)

lemma NomialData_hash_value:
  "NomialData_ok env d \<Longrightarrow>
     fst (NomialData_hash env d)
       = hash_int env (hmap_hash env (hmap d) + hash_str env (unit_str env (hmap_units (hmap d))))"
  by (auto simp: NomialData_ok_def NomialData_hash_def Let_def)

lemma NomialData_hash_ok:
  "NomialData_ok env d \<Longrightarrow> NomialData_ok env (snd (NomialData_hash env d))"
  by (auto simp: NomialData_ok_def NomialData_hash_def Let_def)

lemma NomialData_hash_memo:
  "cached_hashvalue (snd (NomialData_hash env d)) = Some (fst (NomialData_hash env d))"
  by (auto simp: NomialData_hash_def Let_def split: option.splits)

lemma NomialData_hash_again:
  "NomialData_hash env (snd (NomialData_hash env d))
     = (fst (NomialData_hash env d), snd (NomialData_hash env d))"
  by (auto simp: NomialData_hash_def Let_def split: option.splits)

subsection \<open>Facts about the key-set view and \<open>diff\<close>\<close>

lemma varkeys_frame:
  "hmap (snd (varkeys d)) = hmap d" "vks (snd (varkeys d)) = vks d"
  "units (snd (varkeys d)) = units d" "any_nonpositive_cs (snd (varkeys d)) = any_nonpositive_cs d"
  "cached_hashvalue (snd (varkeys d)) = cached_hashvalue d"
  "cached_varlocs (snd (varkeys d)) = cached_varlocs d"
  "cached_exps (snd (varkeys d)) = cached_exps d"
  "cached_cs (snd (varkeys d)) = cached_cs d"
  "cached_values (snd (varkeys d)) = cached_values d"
  "cached_varkeys (snd (varkeys d)) = Some (fst (varkeys d))"
  by (simp_all add: varkeys_def Let_def split: option.splits)

lemma varkeys_realized: "cached_varkeys d \<noteq> None \<Longrightarrow> snd (varkeys d) = d"
  by (auto simp: varkeys_def)

lemma varkeys_again: "fst (varkeys (snd (varkeys d))) = fst (varkeys d)"
  by (simp add: varkeys_def Let_def split: option.splits)

lemma diff_receiver: "snd (diff env d v) = snd (varkeys d)"
  by (simp add: diff_def Let_def split: prod.splits)

lemma diff_result:
  "fst (diff env d v) =
     (let varset = KeySet_getitem (matches env) (fst (varkeys d)) v
      in if length varset > 1 then
           Inl (ValueError (''multiple variables ''
                             @ str_keys (repr_key env) (set_order env varset)
                             @ '' found for key '' @ str_ref env v))
         else if length varset = 0 then Inr (NomialData_init zero_constant)
         else Inr (NomialData_init (hmap_diff env (hmap d) (hd varset))))"
  by (simp add: diff_def Let_def split: prod.splits)

subsection \<open>Instances for evaluation\<close>

text \<open>Keys and references are strings; a reference resolves to the keys it is a prefix
  of, so \<open>x\<close> is ambiguous between \<open>x_A\<close> and \<open>x_B\<close>. A set is enumerated
  in the order in which its elements were found; in \<open>example_env_rev\<close>, in the reverse
  of that order. A set of two keys has no other enumeration.\<close>

definition example_env :: "(string, string, unit) collaborators" where
  "example_env =
     \<lparr>matches = (\<lambda>r k. prefix r k), repr_key = (\<lambda>k. k), str_ref = (\<lambda>r. r),
      set_order = (\<lambda>ks. ks),
      key_units = (\<lambda>k. None), unit_div = (\<lambda>a b. None), unit_str = (\<lambda>u. ''None''),
      hash_content = (\<lambda>m. case m Map.empty of None \<Rightarrow> 0 | Some c \<Rightarrow> 1),
      hash_str = (\<lambda>s. int (length s)), hash_int = (\<lambda>i. i)\<rparr>"

definition example_env_rev :: "(string, string, unit) collaborators" where
  "example_env_rev = example_env\<lparr>set_order := rev\<rparr>"

definition example_nd :: "(string, unit) nomialdata" where
  "example_nd = NomialData_init \<lparr>terms = [([(''x_A'', 1)], 3), ([(''x_B'', 2)], - 1)], hmap_units = None\<rparr>"

lemmas NomialData_eval =
  example_env_def example_env_rev_def example_nd_def NomialData_init_def reset_def collect_vks_def add_vk_def
  varkeys_def KeySet_getitem_def diff_def str_keys_def zero_constant_def Let_def

text \<open>The same sum enumerated in two orders, of the terms and of the keys in a term.\<close>

definition example_sum :: "(string, unit) nomialdata" where
  "example_sum =
     NomialData_init \<lparr>terms = [([(''x'', 1), (''y'', 2)], 3), ([], 5)], hmap_units = None\<rparr>"

definition example_sum_reordered :: "(string, unit) nomialdata" where
  "example_sum_reordered =
     NomialData_init \<lparr>terms = [([], 5), ([(''y'', 2), (''x'', 1)], 3)], hmap_units = None\<rparr>"

lemma empty_neq_map_upd: "Map.empty \<noteq> m(k \<mapsto> v)"
  by (metis map_upd_nonempty)

lemma example_sums_wf:
  "wf_terms (terms (hmap example_sum))" "wf_terms (terms (hmap example_sum_reordered))"
  by (simp_all add: example_sum_def example_sum_reordered_def NomialData_init_def reset_def
        wf_terms_def wf_hv_def empty_neq_map_upd)

lemma example_sums_eq: "NomialData_eq example_sum (Some example_sum_reordered) = Result True"
  by (simp add: example_sum_def example_sum_reordered_def NomialData_init_def reset_def
        NomialData_eq_def hmap_eq_def hv_eq_def)

text \<open>The derivative of \<open>3 x - y\<^sup>2\<close> by \<open>x\<close>: the constant \<open>3\<close> and a zero term
  for the term without \<open>x\<close>.\<close>

lemma hmap_diff_example:
  "terms (hmap_diff example_env
            \<lparr>terms = [([(''x'', 1)], 3), ([(''y'', 2)], - 1)], hmap_units = None\<rparr> ''x'')
     = [([], 3), ([(''y'', 2)], 0)]"
  by (simp add: hmap_diff_def diff_term_def hv_exponent_def hv_eq_def)

lemma diff_one_match_example:
  "fst (diff example_env example_nd ''x_A'')
     = Inr (NomialData_init \<lparr>terms = [([], 3), ([(''x_B'', 2)], 0)], hmap_units = None\<rparr>)"
  by (simp add: NomialData_eval hmap_diff_def diff_term_def hv_exponent_def hv_eq_def)

section \<open>Properties of NomialData\<close>

text \<open>
  C1. When the variable reference resolves to no key of the key set, \<open>diff\<close> does not
  raise: it returns the \<open>NomialData\<close> of the zero constant, whose map has the one term
  with the empty exponent vector and coefficient zero, and no unit.
\<close>

theorem diff_absent_variable:
  assumes "KeySet_getitem (matches env) (fst (varkeys d)) v = []"
  shows "\<exists>z. fst (diff env d v) = Inr z
           \<and> terms (hmap z) = [([], 0)] \<and> hmap_units (hmap z) = None \<and> units z = None
           \<and> vks z = [] \<and> any_nonpositive_cs z
           \<and> z = NomialData_init zero_constant"
  using assms
  by (simp add: diff_result NomialData_init_def reset_def zero_constant_def collect_vks_def)

theorem diff_absent_variable_witness:
  "fst (diff example_env example_nd ''y'') = Inr (NomialData_init zero_constant)
   \<and> terms (hmap (NomialData_init (zero_constant :: (string, unit) nomialmap))) = [([], 0)]"
proof -
  have "KeySet_getitem (matches example_env) (fst (varkeys example_nd)) ''y'' = []"
    by (simp add: NomialData_eval)
  from diff_absent_variable [OF this] show ?thesis by auto
qed

text \<open>
  C2, as stated, fails on the message: with the two matching keys \<open>x_A\<close> and
  \<open>x_B\<close>, \<open>diff\<close> raises a \<open>ValueError\<close> whose message is
  \<^verbatim>\<open>multiple variables [x_A, x_B] found for key x\<close> when the set enumerates
  \<open>x_A\<close> first and \<^verbatim>\<open>multiple variables [x_B, x_A] found for key x\<close> when it
  enumerates \<open>x_B\<close> first. Neither contains \<^verbatim>\<open>multiple matching variables\<close>.
\<close>

theorem diff_message_counterexample:
  "1 < length (KeySet_getitem (matches example_env) (fst (varkeys example_nd)) ''x'')
   \<and> fst (diff example_env example_nd ''x'')
       = Inl (ValueError ''multiple variables [x_A, x_B] found for key x'')
   \<and> \<not> sublist ''multiple matching variables'' ''multiple variables [x_A, x_B] found for key x''
   \<and> 1 < length (KeySet_getitem (matches example_env_rev) (fst (varkeys example_nd)) ''x'')
   \<and> fst (diff example_env_rev example_nd ''x'')
       = Inl (ValueError ''multiple variables [x_B, x_A] found for key x'')
   \<and> \<not> sublist ''multiple matching variables'' ''multiple variables [x_B, x_A] found for key x''"
  by (simp add: NomialData_eval sublist_code)

text \<open>
  C2, amended. When the reference resolves to more than one key, \<open>diff\<close> raises a
  \<open>ValueError\<close> with the message \<^verbatim>\<open>multiple variables\<close>, the list of the matching
  keys in the order in which the set of matches enumerates them, \<^verbatim>\<open>found for key\<close>
  and the reference; and it raises in exactly this case: with one match it returns the
  derivative, with none the zero constant.
\<close>

theorem diff_raises_iff_ambiguous:
  "(1 < length (KeySet_getitem (matches env) (fst (varkeys d)) v)
      \<longrightarrow> fst (diff env d v)
            = Inl (ValueError (''multiple variables ''
                     @ str_keys (repr_key env)
                         (set_order env (KeySet_getitem (matches env) (fst (varkeys d)) v))
                     @ '' found for key '' @ str_ref env v)))
   \<and> (isl (fst (diff env d v)) \<longleftrightarrow> 1 < length (KeySet_getitem (matches env) (fst (varkeys d)) v))
   \<and> (length (KeySet_getitem (matches env) (fst (varkeys d)) v) = 1
      \<longrightarrow> fst (diff env d v)
            = Inr (NomialData_init (hmap_diff env (hmap d)
                     (hd (KeySet_getitem (matches env) (fst (varkeys d)) v)))))
   \<and> (length (KeySet_getitem (matches env) (fst (varkeys d)) v) = 0
      \<longrightarrow> fst (diff env d v) = Inr (NomialData_init zero_constant))"
  by (simp add: diff_result Let_def)

theorem diff_raises_iff_ambiguous_witness:
  "fst (diff example_env example_nd ''x'')
     = Inl (ValueError ''multiple variables [x_A, x_B] found for key x'')
   \<and> fst (diff example_env_rev example_nd ''x'')
     = Inl (ValueError ''multiple variables [x_B, x_A] found for key x'')
   \<and> \<not> isl (fst (diff example_env example_nd ''x_A''))
   \<and> \<not> isl (fst (diff example_env_rev example_nd ''x_A''))
   \<and> \<not> isl (fst (diff example_env example_nd ''y''))"
proof -
  have 2: "KeySet_getitem (matches example_env) (fst (varkeys example_nd)) ''x'' = [''x_A'', ''x_B'']"
    and 1: "KeySet_getitem (matches example_env) (fst (varkeys example_nd)) ''x_A'' = [''x_A'']"
    and 0: "KeySet_getitem (matches example_env) (fst (varkeys example_nd)) ''y'' = []"
    and r2: "KeySet_getitem (matches example_env_rev) (fst (varkeys example_nd)) ''x'' = [''x_A'', ''x_B'']"
    and r1: "KeySet_getitem (matches example_env_rev) (fst (varkeys example_nd)) ''x_A'' = [''x_A'']"
    by (simp_all add: NomialData_eval)
  from diff_raises_iff_ambiguous [of example_env example_nd "''x''"]
    diff_raises_iff_ambiguous [of example_env example_nd "''x_A''"]
    diff_raises_iff_ambiguous [of example_env example_nd "''y''"]
    diff_raises_iff_ambiguous [of example_env_rev example_nd "''x''"]
    diff_raises_iff_ambiguous [of example_env_rev example_nd "''x_A''"]
  show ?thesis
    unfolding 0 1 2 r1 r2 by (simp add: example_env_def example_env_rev_def str_keys_def)
qed

text \<open>
  C4. For two objects whose maps are well-formed dicts, \<^verbatim>\<open>__eq__\<close> is true exactly
  when the maps have the same content (the same exponent vectors with the same
  coefficients) and the units are the same. The order of enumeration does not matter: two
  maps with the same set of terms and the same unit are equal.
\<close>

theorem NomialData_eq_content:
  assumes a: "wf_terms (terms (hmap a))" and b: "wf_terms (terms (hmap b))"
  shows "NomialData_eq a (Some b)
           = Result (hmap_content (terms (hmap a)) = hmap_content (terms (hmap b))
                     \<and> units a = units b)
       \<and> (set (terms (hmap a)) = set (terms (hmap b)) \<and> units a = units b
            \<longrightarrow> NomialData_eq a (Some b) = Result True)"
proof -
  have 1: "NomialData_eq a (Some b)
           = Result (hmap_content (terms (hmap a)) = hmap_content (terms (hmap b))
                     \<and> units a = units b)"
    by (simp add: NomialData_eq_def hmap_eq_iff [OF a b])
  have 2: "NomialData_eq a (Some b) = Result True"
    if "set (terms (hmap a)) = set (terms (hmap b))" "units a = units b"
    using hmap_content_set [OF a b that(1)] that(2) by (simp add: 1)
  from 1 2 show ?thesis by blast
qed

theorem NomialData_eq_content_witness:
  "NomialData_eq example_sum (Some example_sum_reordered) = Result True
   \<and> hmap_content (terms (hmap example_sum)) = hmap_content (terms (hmap example_sum_reordered))
   \<and> map fst (terms (hmap example_sum)) \<noteq> map fst (terms (hmap example_sum_reordered))"
proof -
  have "map fst (terms (hmap example_sum)) \<noteq> map fst (terms (hmap example_sum_reordered))"
    by (simp add: example_sum_def example_sum_reordered_def NomialData_init_def reset_def)
  with NomialData_eq_content [OF example_sums_wf] example_sums_eq
  show ?thesis by simp
qed

text \<open>
  C5. The hash of an object is the hash of the sum of the hash of the map's content and
  the hash of the unit's string. Equal objects have equal hashes, objects with the same
  set of terms and the same unit have equal hashes whatever the order of the terms, the
  first call stores the value, and a second call returns the same value and changes nothing.
\<close>

theorem NomialData_hash_agrees:
  assumes a: "NomialData_ok env a" and b: "NomialData_ok env b"
  shows "fst (NomialData_hash env a)
           = hash_int env (hash_content env (hmap_content (terms (hmap a)))
                           + hash_str env (unit_str env (units a)))
       \<and> (NomialData_eq a (Some b) = Result True
            \<longrightarrow> fst (NomialData_hash env a) = fst (NomialData_hash env b))
       \<and> (set (terms (hmap a)) = set (terms (hmap b)) \<and> units a = units b
            \<longrightarrow> fst (NomialData_hash env a) = fst (NomialData_hash env b))
       \<and> cached_hashvalue (snd (NomialData_hash env a)) = Some (fst (NomialData_hash env a))
       \<and> NomialData_hash env (snd (NomialData_hash env a))
           = (fst (NomialData_hash env a), snd (NomialData_hash env a))
       \<and> NomialData_ok env (snd (NomialData_hash env a))"
proof -
  from a b have wa: "wf_terms (terms (hmap a))" and wb: "wf_terms (terms (hmap b))"
    and ua: "units a = hmap_units (hmap a)" and ub: "units b = hmap_units (hmap b)"
    by (simp_all add: NomialData_ok_def)
  have va: "fst (NomialData_hash env a)
           = hash_int env (hash_content env (hmap_content (terms (hmap a)))
                           + hash_str env (unit_str env (units a)))"
    using NomialData_hash_value [OF a] ua by (simp add: hmap_hash_def)
  have vb: "fst (NomialData_hash env b)
           = hash_int env (hash_content env (hmap_content (terms (hmap b)))
                           + hash_str env (unit_str env (units b)))"
    using NomialData_hash_value [OF b] ub by (simp add: hmap_hash_def)
  have same: "fst (NomialData_hash env a) = fst (NomialData_hash env b)"
    if "hmap_content (terms (hmap a)) = hmap_content (terms (hmap b))" "units a = units b"
    using that va vb by simp
  have eq: "fst (NomialData_hash env a) = fst (NomialData_hash env b)"
    if "NomialData_eq a (Some b) = Result True"
  proof -
    from that have "hmap_eq (terms (hmap a)) (terms (hmap b))" "units a = units b"
      by (auto simp: NomialData_eq_def split: if_splits)
    then show ?thesis using same hmap_eq_iff [OF wa wb] by simp
  qed
  have perm: "fst (NomialData_hash env a) = fst (NomialData_hash env b)"
    if "set (terms (hmap a)) = set (terms (hmap b))" "units a = units b"
    using same hmap_content_set [OF wa wb that(1)] that(2) by simp
  show ?thesis
    using va eq perm NomialData_hash_memo [of env a] NomialData_hash_again [of env a]
      NomialData_hash_ok [OF a]
    by blast
qed

theorem NomialData_hash_agrees_witness:
  "fst (NomialData_hash example_env example_sum)
     = fst (NomialData_hash example_env example_sum_reordered)
   \<and> NomialData_hash example_env (snd (NomialData_hash example_env example_sum))
     = (fst (NomialData_hash example_env example_sum), snd (NomialData_hash example_env example_sum))"
proof -
  have a: "NomialData_ok example_env example_sum"
    unfolding example_sum_def
    by (rule NomialData_init_ok) (use example_sums_wf(1) in \<open>simp add: example_sum_def NomialData_init_def reset_def\<close>)
  have b: "NomialData_ok example_env example_sum_reordered"
    unfolding example_sum_reordered_def
    by (rule NomialData_init_ok) (use example_sums_wf(2) in \<open>simp add: example_sum_reordered_def NomialData_init_def reset_def\<close>)
  from NomialData_hash_agrees [OF a b] example_sums_eq show ?thesis by blast
qed

text \<open>
  C9, as stated, fails on the key-set view: \<open>diff\<close> reads \<^verbatim>\<open>self.varkeys\<close>, which
  fills the slot of that view in the receiver when it was empty.
\<close>

theorem diff_frame_counterexample:
  "snd (diff example_env example_nd ''y'') \<noteq> example_nd
   \<and> cached_varkeys example_nd = None
   \<and> cached_varkeys (snd (diff example_env example_nd ''y'')) = Some [''x_A'', ''x_B'']"
  by (simp add: NomialData_eval)

text \<open>
  C9, amended. \<open>diff\<close> leaves the receiver's map, \<open>vks\<close>, units, positivity flag and
  the slots of the hash, \<open>varlocs\<close>, \<open>exps\<close>, \<open>cs\<close> and \<open>values\<close> as they were.
  The slot of the key-set view holds afterwards the key set that the view had before the
  call; a receiver whose key-set view was realized is unchanged. A result that is returned
  is a newly constructed \<open>NomialData\<close>.
\<close>

theorem diff_frame:
  "hmap (snd (diff env d v)) = hmap d
   \<and> vks (snd (diff env d v)) = vks d
   \<and> units (snd (diff env d v)) = units d
   \<and> any_nonpositive_cs (snd (diff env d v)) = any_nonpositive_cs d
   \<and> cached_hashvalue (snd (diff env d v)) = cached_hashvalue d
   \<and> cached_varlocs (snd (diff env d v)) = cached_varlocs d
   \<and> cached_exps (snd (diff env d v)) = cached_exps d
   \<and> cached_cs (snd (diff env d v)) = cached_cs d
   \<and> cached_values (snd (diff env d v)) = cached_values d
   \<and> cached_varkeys (snd (diff env d v)) = Some (fst (varkeys d))
   \<and> fst (varkeys (snd (diff env d v))) = fst (varkeys d)
   \<and> (cached_varkeys d \<noteq> None \<longrightarrow> snd (diff env d v) = d)
   \<and> (\<forall>z. fst (diff env d v) = Inr z \<longrightarrow> (\<exists>h. z = NomialData_init h))"
proof -
  have new: "\<forall>z. fst (diff env d v) = Inr z \<longrightarrow> (\<exists>h. z = NomialData_init h)"
    by (auto simp: diff_result Let_def split: if_splits)
  show ?thesis
    using new by (simp add: diff_receiver varkeys_frame varkeys_again varkeys_realized)
qed

theorem diff_frame_witness:
  "snd (diff example_env (snd (varkeys example_nd)) ''x_A'') = snd (varkeys example_nd)
   \<and> hmap (snd (diff example_env example_nd ''x_A'')) = hmap example_nd"
proof -
  have "cached_varkeys (snd (varkeys example_nd)) \<noteq> None"
    by (simp add: NomialData_eval)
  with diff_frame [of example_env "snd (varkeys example_nd)" "''x_A''"]
    diff_frame [of example_env example_nd "''x_A''"]
  show ?thesis by blast
qed

end
